theory Spec2Isabelle
  imports Main "HOL-Library.Word"
begin

unbundle bit_operations_syntax

section \<open>The cpucore cooling device (drivers/thermal/cpucore\_cooling.c)\<close>

text \<open>
  The driver limits the number of online CPU cores. Its callbacks take a
  \<^verbatim>\<open>struct thermal_cooling_device *cdev\<close> and work on the record
  \<^verbatim>\<open>cdev->devdata\<close>. The kernel targeted by this tree is the 64-bit one of the
  S905, so \<^verbatim>\<open>unsigned long\<close> and \<^verbatim>\<open>long\<close> are 64 bits wide and
  \<^verbatim>\<open>int\<close> and \<^verbatim>\<open>unsigned int\<close> are 32 bits wide. A value of a signed C type
  is kept as the word of its bits and read with \<open>sint\<close> or widened with \<open>scast\<close>.
\<close>

type_synonym ulong = "64 word"
type_synonym c_int = "32 word"
type_synonym c_uint = "32 word"

subsection \<open>Data\<close>

text \<open>
  Modelled from the spec: \<^verbatim>\<open>struct cpucore_cooling_device\<close> is declared in
  \<^verbatim>\<open>linux/cpucore_cooling.h\<close>, which is not among the sources. The spec lists the
  fields as integers (id, max\_throttle, current\_throttle), a latch (stopped) and a
  reference to the framework handle; the names below are the ones the C file uses
  (\<open>id_dev\<close> for \<^verbatim>\<open>id\<close>).
  They are taken at the widths of \<^verbatim>\<open>int\<close> (\<open>max_cpu_core_num\<close>,
  \<open>stop_flag\<close>) and \<^verbatim>\<open>unsigned int\<close> (\<open>cpucore_state\<close>). The id is an
  \<^verbatim>\<open>int\<close> too; it only ever holds what the allocator returned, a value between
  0 and \<^verbatim>\<open>INT_MAX\<close>, and is kept as a mathematical integer. A pointer is the
  address it holds, \<open>None\<close> for \<^verbatim>\<open>NULL\<close>.
\<close>

record cpucore_cooling_device =
  id_dev :: int
  cool_dev :: "nat option"
  cpucore_state :: c_uint
  max_cpu_core_num :: c_int
  stop_flag :: c_int

text \<open>
  Modelled from the spec: the macro \<^verbatim>\<open>CPU_STOP\<close> comes from the same missing
  header. The spec calls it a reserved stop flag bit of the requested value; it is
  taken as the top bit of an \<^verbatim>\<open>unsigned int\<close> constant, \<^verbatim>\<open>0x80000000\<close>.
\<close>

definition CPU_STOP :: c_uint where
  "CPU_STOP = 0x80000000"

text \<open>
  The state the callbacks act on: the record behind \<^verbatim>\<open>cdev->devdata\<close> and the
  arguments that \<^verbatim>\<open>cpufreq_set_max_cpu_num\<close> has been called with so far, oldest
  first. That function belongs to the cpufreq code; only its calls are recorded.
\<close>

record cooling_state =
  devdata :: cpucore_cooling_device
  max_cpu_num_calls :: "c_int list"

subsection \<open>Callbacks of the cooling device\<close>

text \<open>
  Every callback returns 0 on every path; the definitions keep what is written
  through the out-parameter and what happens to the state.
\<close>

definition cpucore_get_max_state :: "cooling_state \<Rightarrow> ulong" where
  "cpucore_get_max_state s = scast (max_cpu_core_num (devdata s))"

definition cpucore_get_cur_state :: "cooling_state \<Rightarrow> ulong" where
  "cpucore_get_cur_state s = ucast (cpucore_state (devdata s))"

text \<open>
  \<^verbatim>\<open>cpucore_set_cur_state\<close>. The test
  \<^verbatim>\<open>cpucore_device->max_cpu_core_num - state > 0\<close> has an \<^verbatim>\<open>int\<close> on the left
  and an \<^verbatim>\<open>unsigned long\<close> on the right: the \<^verbatim>\<open>int\<close> is converted to
  \<^verbatim>\<open>unsigned long\<close>, the subtraction wraps around modulo \<open>2 ^ 64\<close> and the
  comparison with 0 is unsigned. \<^verbatim>\<open>~CPU_STOP\<close> is computed on the
  \<^verbatim>\<open>unsigned int\<close> constant and widened afterwards. The assignment to
  \<^verbatim>\<open>int set_max_num\<close> keeps the low 32 bits.
\<close>

definition cpucore_set_cur_state :: "cooling_state \<Rightarrow> ulong \<Rightarrow> cooling_state" where
  "cpucore_set_cur_state s state =
    (let cpucore_device = devdata s in
     if stop_flag cpucore_device \<noteq> 0 then s
     else
       let stop = (state AND ucast CPU_STOP = ucast CPU_STOP);
           cpucore_device = (if stop then cpucore_device\<lparr>stop_flag := 1\<rparr>
                             else cpucore_device);
           state = (if stop then state AND ucast (NOT CPU_STOP) else state)
       in
         if 0 < scast (max_cpu_core_num cpucore_device) - state then
           let set_max_num = ucast (scast (max_cpu_core_num cpucore_device) - state)
           in s\<lparr>devdata := cpucore_device\<lparr>cpucore_state := ucast state\<rparr>,
                max_cpu_num_calls := max_cpu_num_calls s @ [set_max_num]\<rparr>
         else s\<lparr>devdata := cpucore_device\<rparr>)"

text \<open>
  The three hooks of the power allocator. \<^verbatim>\<open>cpucore_power2state\<close> calls
  \<^verbatim>\<open>get_cur_state\<close> through \<^verbatim>\<open>cdev->ops\<close>.
\<close>

definition cpucore_get_requested_power :: "cooling_state \<Rightarrow> 32 word" where
  "cpucore_get_requested_power s = 0"

definition cpucore_state2power :: "cooling_state \<Rightarrow> ulong \<Rightarrow> 32 word" where
  "cpucore_state2power s state = 0"

definition cpucore_power2state :: "cooling_state \<Rightarrow> 32 word \<Rightarrow> ulong" where
  "cpucore_power2state s pw = cpucore_get_cur_state s"

subsection \<open>Trip notification\<close>

text \<open>
  Modelled from the spec: \<^verbatim>\<open>enum thermal_trip_type\<close>,
  \<^verbatim>\<open>struct thermal_instance\<close>, \<^verbatim>\<open>struct thermal_zone_device\<close> and
  \<^verbatim>\<open>get_thermal_instance\<close> belong to the thermal core, which is not among the
  sources. A thermal instance binds a cooling device to one trip of a zone and
  declares an upper bound on the cooling state; the bound is a cooling state, an
  \<^verbatim>\<open>unsigned long\<close> like the states of every callback above.
  \<^verbatim>\<open>get_thermal_instance(tz, cdev, i)\<close> is the instance of the zone bound to
  \<open>cdev\<close> at trip \<open>i\<close>, or \<^verbatim>\<open>NULL\<close>. The zone carries the number of its
  trips and the flag \<open>enter_hot\<close> that tells an asserting hot trip from a clearing
  one.
\<close>

datatype thermal_trip_type =
  THERMAL_TRIP_ACTIVE | THERMAL_TRIP_PASSIVE | THERMAL_TRIP_HOT | THERMAL_TRIP_CRITICAL

record thermal_instance =
  cdev :: nat
  trip :: int
  upper :: ulong

record thermal_zone_device =
  trips :: int
  enter_hot :: bool
  thermal_instances :: "thermal_instance list"

definition get_thermal_instance ::
  "thermal_zone_device \<Rightarrow> nat \<Rightarrow> int \<Rightarrow> thermal_instance option" where
  "get_thermal_instance tz cd i =
     find (\<lambda>pos. trip pos = i \<and> cdev pos = cd) (thermal_instances tz)"

text \<open>
  The loop of \<^verbatim>\<open>cpucore_notify_state\<close> over the trips, from index \<open>i\<close> on,
  with the running value of the local \<^verbatim>\<open>long upper\<close>. In
  \<^verbatim>\<open>ins->upper > upper\<close> the left operand is an \<^verbatim>\<open>unsigned long\<close>, so the
  \<^verbatim>\<open>long\<close> on the right is converted to \<^verbatim>\<open>unsigned long\<close> and the
  comparison is the unsigned one of the two bit patterns. The index never leaves
  the range of an \<^verbatim>\<open>int\<close>, since it stops at \<open>trips\<close>.
\<close>

function scan_upper :: "thermal_zone_device \<Rightarrow> nat \<Rightarrow> int \<Rightarrow> ulong \<Rightarrow> ulong" where
  "scan_upper tz cd i up =
     (if i < trips tz then
        scan_upper tz cd (i + 1)
          (case get_thermal_instance tz cd i of
             None \<Rightarrow> up
           | Some ins \<Rightarrow> if up < upper ins then upper ins else up)
      else up)"
  by pat_completeness auto
termination
  by (relation "measure (\<lambda>(tz, cd, i, up). nat (trips tz - i))") auto

declare scan_upper.simps [simp del]

text \<open>
  \<^verbatim>\<open>cpucore_notify_state\<close>, for the cooling device at address \<open>cd\<close>. The calls
  through \<^verbatim>\<open>cdev->ops\<close> reach the two callbacks above. In
  \<^verbatim>\<open>cur_state > upper\<close> the \<^verbatim>\<open>long\<close> is again converted to
  \<^verbatim>\<open>unsigned long\<close>.
\<close>

definition cpucore_notify_state ::
  "nat \<Rightarrow> cooling_state \<Rightarrow> thermal_zone_device \<Rightarrow> thermal_trip_type \<Rightarrow> cooling_state" where
  "cpucore_notify_state cd s tz type =
    (case type of
       THERMAL_TRIP_HOT \<Rightarrow>
         if enter_hot tz then
           let up = scan_upper tz cd 0 (- 1);
               cur_state = cpucore_get_cur_state s;
               cur_state = cur_state + 1;
               cur_state = (if up \<noteq> - 1 \<and> up < cur_state then up else cur_state)
           in cpucore_set_cur_state s cur_state
         else
           let cur_state = 0
           in cpucore_set_cur_state s cur_state
     | _ \<Rightarrow> s)"

text \<open>
  A sequence of notifications of the hot trip, one for each zone state of the
  list, in order.
\<close>

definition notify_hot_all :: "nat \<Rightarrow> cooling_state \<Rightarrow> thermal_zone_device list \<Rightarrow> cooling_state" where
  "notify_hot_all cd s tzs = foldl (\<lambda>s tz. cpucore_notify_state cd s tz THERMAL_TRIP_HOT) s tzs"

subsection \<open>The table of callbacks\<close>

text \<open>
  \<^verbatim>\<open>cpucore_cooling_ops\<close> binds the seven callbacks; the framework reaches a
  registered device only through them. A call is the callback with its arguments,
  and \<open>invoke\<close> gives what the callback writes through its out-parameter and the
  state it leaves. The four getters and the two constant hooks only read the
  record.
\<close>

datatype operation =
    Get_max_state
  | Get_cur_state
  | Set_cur_state ulong
  | State2power ulong
  | Power2state "32 word"
  | Notify_state thermal_zone_device thermal_trip_type
  | Get_requested_power

datatype outcome = Out_state ulong | Out_power "32 word" | Out_none

fun invoke :: "nat \<Rightarrow> cooling_state \<Rightarrow> operation \<Rightarrow> outcome \<times> cooling_state" where
  "invoke cd s Get_max_state = (Out_state (cpucore_get_max_state s), s)"
| "invoke cd s Get_cur_state = (Out_state (cpucore_get_cur_state s), s)"
| "invoke cd s (Set_cur_state state) = (Out_none, cpucore_set_cur_state s state)"
| "invoke cd s (State2power state) = (Out_power (cpucore_state2power s state), s)"
| "invoke cd s (Power2state pw) = (Out_state (cpucore_power2state s pw), s)"
| "invoke cd s (Notify_state tz type) = (Out_none, cpucore_notify_state cd s tz type)"
| "invoke cd s Get_requested_power = (Out_power (cpucore_get_requested_power s), s)"

text \<open>The state after a sequence of calls, made one after the other.\<close>

definition invoke_all :: "nat \<Rightarrow> cooling_state \<Rightarrow> operation list \<Rightarrow> cooling_state" where
  "invoke_all cd s ops = foldl (\<lambda>s op. snd (invoke cd s op)) s ops"

subsection \<open>The id allocator\<close>

datatype errno = ENOMEM | EINVAL | ENOSPC

text \<open>
  Modelled from the spec: \<^verbatim>\<open>struct idr\<close>, \<^verbatim>\<open>idr_alloc\<close> and
  \<^verbatim>\<open>idr_remove\<close> are the kernel's id allocator, which is not among the sources.
  By the spec, allocation returns the smallest non-negative integer not currently
  outstanding and fails only if the underlying index space is saturated, and
  release removes the id from the outstanding set. The allocator is the list of
  the outstanding ids together with the size of its index space (the ids are
  \<open>0, \<dots>, space - 1\<close>; the kernel's index space ends at \<^verbatim>\<open>INT_MAX\<close>). The
  call in \<^verbatim>\<open>get_idr\<close> passes the bounds \<open>0, 0\<close>, which ask for any id of the
  index space.
\<close>

record idr =
  space :: int
  outstanding :: "int list"

definition idr_alloc :: "idr \<Rightarrow> errno + int \<times> idr" where
  "idr_alloc idr =
     (case find (\<lambda>n. n \<notin> set (outstanding idr)) [0..space idr - 1] of
        None \<Rightarrow> Inl ENOSPC
      | Some n \<Rightarrow> Inr (n, idr\<lparr>outstanding := n # outstanding idr\<rparr>))"

definition idr_remove :: "idr \<Rightarrow> int \<Rightarrow> idr" where
  "idr_remove idr n = idr\<lparr>outstanding := removeAll n (outstanding idr)\<rparr>"

text \<open>
  \<^verbatim>\<open>get_idr\<close> and \<^verbatim>\<open>release_idr\<close>. Both run under
  \<^verbatim>\<open>cooling_cpucore_lock\<close>; the model is sequential and each call is one step.
  \<^verbatim>\<open>get_idr\<close> returns the negative code of \<^verbatim>\<open>idr_alloc\<close> (here \<open>Inl\<close>)
  or stores the id and returns 0 (here \<open>Inr\<close> with the id).
\<close>

definition get_idr :: "idr \<Rightarrow> (errno + int) \<times> idr" where
  "get_idr idr =
     (case idr_alloc idr of
        Inl ret \<Rightarrow> (Inl ret, idr)
      | Inr (ret, idr') \<Rightarrow> (Inr ret, idr'))"

definition release_idr :: "idr \<Rightarrow> int \<Rightarrow> idr" where
  "release_idr idr n = idr_remove idr n"

subsection \<open>Registration\<close>

text \<open>
  The part of the kernel that registration touches: the static allocator
  \<^verbatim>\<open>cpucore_idr\<close> and the records that are allocated and not freed, by address.
\<close>

record kernel =
  cpucore_idr :: idr
  heap :: "nat \<rightharpoonup> cpucore_cooling_device"

text \<open>
  What the rest of the kernel answers during one call of
  \<^verbatim>\<open>cpucore_cooling_register\<close>: the pointer returned by \<^verbatim>\<open>kzalloc\<close>, the
  value of \<^verbatim>\<open>num_possible_cpus()\<close>, and the pointer returned by
  \<^verbatim>\<open>thermal_of_cooling_device_register\<close>. The code tests that pointer against
  \<^verbatim>\<open>NULL\<close> only; the framework reports a failure as an error pointer, which
  is not \<^verbatim>\<open>NULL\<close>.
\<close>

record register_env =
  kzalloc_ret :: "nat option"
  num_possible_cpus :: c_uint
  tcd_register_ret :: "nat option"

text \<open>
  Modelled from the spec: \<^verbatim>\<open>ERR_PTR\<close> and \<^verbatim>\<open>IS_ERR\<close> are macros of
  \<^verbatim>\<open>linux/err.h\<close>, which is not among the sources. By the spec, registration
  returns a handle or an error; the C file returns both as one pointer, as its
  comment on \<^verbatim>\<open>cpucore_cooling_register\<close> says (``on failure, it returns a
  corresponding \<^verbatim>\<open>ERR_PTR()\<close>''), and so does the framework function it calls.
  An error pointer is the address whose value is the negated error number, one of
  the last 4095 addresses of the 64-bit address space; it is never \<^verbatim>\<open>NULL\<close>.
\<close>

fun errno_number :: "errno \<Rightarrow> nat" where
  "errno_number ENOMEM = 12"
| "errno_number EINVAL = 22"
| "errno_number ENOSPC = 28"

definition ERR_PTR :: "errno \<Rightarrow> nat" where
  "ERR_PTR e = 18446744073709551616 - errno_number e"

definition IS_ERR :: "nat option \<Rightarrow> bool" where
  "IS_ERR ptr = (case ptr of None \<Rightarrow> False | Some a \<Rightarrow> 18446744073709551616 - 4095 \<le> a)"

text \<open>The record as \<^verbatim>\<open>kzalloc\<close> returns it, filled with zeros.\<close>

definition zeroed :: cpucore_cooling_device where
  "zeroed = \<lparr>id_dev = 0, cool_dev = None, cpucore_state = 0, max_cpu_core_num = 0,
              stop_flag = 0\<rparr>"

definition kfree :: "nat \<Rightarrow> kernel \<Rightarrow> kernel" where
  "kfree p k = k\<lparr>heap := (heap k)(p := None)\<rparr>"

text \<open>
  \<^verbatim>\<open>cpucore_cooling_register\<close>. The result is \<open>Inl\<close> with the error where the
  code builds an \<^verbatim>\<open>ERR_PTR\<close> itself, and \<open>Inr\<close> with the pointer where it
  returns \<^verbatim>\<open>cool_dev\<close>, the answer of the framework as it came. The device
  name built from the id goes to the framework only and is left out.
\<close>

definition cpucore_cooling_register :: "register_env \<Rightarrow> kernel \<Rightarrow> (errno + nat) \<times> kernel" where
  "cpucore_cooling_register env k =
    (case kzalloc_ret env of
       None \<Rightarrow> (Inl ENOMEM, k)
     | Some p \<Rightarrow>
         let k = k\<lparr>heap := (heap k)(p \<mapsto> zeroed)\<rparr> in
         (case get_idr (cpucore_idr k) of
            (Inl ret, idr') \<Rightarrow> (Inl EINVAL, kfree p (k\<lparr>cpucore_idr := idr'\<rparr>))
          | (Inr n, idr') \<Rightarrow>
              let cpucore_dev = zeroed\<lparr>id_dev := n\<rparr>;
                  cpucore_dev = cpucore_dev\<lparr>max_cpu_core_num := num_possible_cpus env\<rparr>;
                  k = k\<lparr>cpucore_idr := idr', heap := (heap k)(p \<mapsto> cpucore_dev)\<rparr>
              in
                (case tcd_register_ret env of
                   None \<Rightarrow>
                     let k = k\<lparr>cpucore_idr := release_idr (cpucore_idr k) (id_dev cpucore_dev)\<rparr>
                     in (Inl EINVAL, kfree p k)
                 | Some c \<Rightarrow>
                     let cpucore_dev = cpucore_dev\<lparr>cool_dev := Some c\<rparr>;
                         cpucore_dev = cpucore_dev\<lparr>cpucore_state := 0\<rparr>
                     in (Inr c, k\<lparr>heap := (heap k)(p \<mapsto> cpucore_dev)\<rparr>))))"

subsection \<open>Concrete states and zones\<close>

text \<open>
  A device record with \<open>n\<close> cores, cooling state \<open>st\<close> and stop flag \<open>sf\<close>,
  before any call of \<^verbatim>\<open>cpufreq_set_max_cpu_num\<close>; and a zone with two trips and
  the given thermal instances.
\<close>

definition device :: "c_int \<Rightarrow> c_uint \<Rightarrow> c_int \<Rightarrow> cooling_state" where
  "device n st sf =
     \<lparr>devdata = \<lparr>id_dev = 0, cool_dev = Some 0, cpucore_state = st,
                  max_cpu_core_num = n, stop_flag = sf\<rparr>,
      max_cpu_num_calls = []\<rparr>"

definition zone :: "bool \<Rightarrow> thermal_instance list \<Rightarrow> thermal_zone_device" where
  "zone hot inss = \<lparr>trips = 2, enter_hot = hot, thermal_instances = inss\<rparr>"

section \<open>Properties\<close>

subsection \<open>Auxiliary facts\<close>

lemma set_cur_state_stopped:
  "stop_flag (devdata s) \<noteq> 0 \<Longrightarrow> cpucore_set_cur_state s state = s"
  by (simp add: cpucore_set_cur_state_def)

lemma notify_state_stopped:
  "stop_flag (devdata s) \<noteq> 0 \<Longrightarrow> cpucore_notify_state cd s tz type = s"
  by (cases type) (simp_all add: cpucore_notify_state_def set_cur_state_stopped Let_def)

text \<open>Without the stop bit the request is committed exactly when it differs from
  the number of cores, read as an \<^verbatim>\<open>unsigned long\<close>.\<close>

lemma set_cur_state_plain:
  assumes "stop_flag (devdata s) = 0"
    and "state AND ucast CPU_STOP \<noteq> ucast CPU_STOP"
  shows "cpucore_set_cur_state s state =
    (if scast (max_cpu_core_num (devdata s)) \<noteq> state
     then s\<lparr>devdata := (devdata s)\<lparr>cpucore_state := ucast state\<rparr>,
            max_cpu_num_calls := max_cpu_num_calls s @
              [ucast (scast (max_cpu_core_num (devdata s)) - state)]\<rparr>
     else s)"
  using assms by (simp add: cpucore_set_cur_state_def Let_def word_gt_0)

lemma set_cur_state_flagged:
  assumes "stop_flag (devdata s) = 0"
    and "state AND ucast CPU_STOP = ucast CPU_STOP"
  shows "cpucore_set_cur_state s state =
    (if scast (max_cpu_core_num (devdata s)) \<noteq> state AND ucast (NOT CPU_STOP)
     then s\<lparr>devdata := (devdata s)\<lparr>stop_flag := 1,
              cpucore_state := ucast (state AND ucast (NOT CPU_STOP))\<rparr>,
            max_cpu_num_calls := max_cpu_num_calls s @
              [ucast (scast (max_cpu_core_num (devdata s)) - (state AND ucast (NOT CPU_STOP)))]\<rparr>
     else s\<lparr>devdata := (devdata s)\<lparr>stop_flag := 1\<rparr>\<rparr>)"
  using assms by (simp add: cpucore_set_cur_state_def Let_def word_gt_0)

lemma zero_not_flagged: "(0::ulong) AND ucast CPU_STOP \<noteq> ucast CPU_STOP"
  by (simp add: CPU_STOP_def)

lemma scast_max_eq_0: "(scast (x :: c_int) :: ulong) = 0 \<longleftrightarrow> x = 0"
proof
  assume "(scast x :: ulong) = 0"
  then have "sint (scast x :: ulong) = 0" by simp
  then have "sint x = sint (0 :: c_int)" by (simp add: sint_up_scast is_up)
  then show "x = 0" by (rule signed_word_eqI)
qed simp

lemma ucast_minus_1: "(ucast (- 1 :: ulong) :: c_int) = - 1"
  by (rule bit_word_eqI) (simp add: bit_simps)

text \<open>
  The search for the upper bound starts from \<open>- 1\<close>, the largest
  \<^verbatim>\<open>unsigned long\<close>; no bound of an instance is greater in the unsigned
  comparison, so the search returns \<open>- 1\<close> whatever the zone holds.
\<close>

lemma scan_upper_unbounded: "scan_upper tz cd i (- 1) = - 1"
proof (induction tz cd i "- 1 :: ulong" rule: scan_upper.induct)
  case (1 tz cd i)
  show ?case
  proof (cases "i < trips tz")
    case True
    have "(case get_thermal_instance tz cd i of None \<Rightarrow> - 1
           | Some ins \<Rightarrow> if - 1 < upper ins then upper ins else - 1) = (- 1 :: ulong)"
      by (simp split: option.split)
    with 1 True show ?thesis
      by (subst scan_upper.simps) simp
  next
    case False
    then show ?thesis by (subst scan_upper.simps) simp
  qed
qed

lemma scan_upper_no_instance:
  "\<forall>j. get_thermal_instance tz cd j = None \<Longrightarrow> scan_upper tz cd i up = up"
proof (induction tz cd i up rule: scan_upper.induct)
  case (1 tz cd i up)
  then show ?case by (subst scan_upper.simps) simp
qed

lemma notify_state_asserting:
  "enter_hot tz \<Longrightarrow>
   cpucore_notify_state cd s tz THERMAL_TRIP_HOT =
     cpucore_set_cur_state s (cpucore_get_cur_state s + 1)"
  by (simp add: cpucore_notify_state_def scan_upper_unbounded)

lemma notify_state_cases:
  "cpucore_notify_state cd s tz type = s \<or>
   (\<exists>state. cpucore_notify_state cd s tz type = cpucore_set_cur_state s state)"
  by (cases type) (auto simp add: cpucore_notify_state_def Let_def)

lemma set_cur_state_stop_flag:
  "stop_flag (devdata (cpucore_set_cur_state s state)) = stop_flag (devdata s) \<or>
   stop_flag (devdata s) = 0 \<and> stop_flag (devdata (cpucore_set_cur_state s state)) = 1"
  by (simp add: cpucore_set_cur_state_def Let_def)

lemma invoke_stop_flag:
  "stop_flag (devdata (snd (invoke cd s op))) = stop_flag (devdata s) \<or>
   stop_flag (devdata s) = 0 \<and> stop_flag (devdata (snd (invoke cd s op))) = 1"
proof (cases op)
  case (Set_cur_state state)
  then show ?thesis using set_cur_state_stop_flag [of s state] by simp
next
  case (Notify_state tz type)
  from notify_state_cases [of cd s tz type] show ?thesis
  proof
    assume "cpucore_notify_state cd s tz type = s"
    with Notify_state show ?thesis by simp
  next
    assume "\<exists>state. cpucore_notify_state cd s tz type = cpucore_set_cur_state s state"
    then obtain state
      where "cpucore_notify_state cd s tz type = cpucore_set_cur_state s state" ..
    with Notify_state set_cur_state_stop_flag [of s state] show ?thesis by simp
  qed
qed simp_all

lemma invoke_all_stop_flag:
  "stop_flag (devdata s) \<noteq> 0 \<Longrightarrow>
   stop_flag (devdata (invoke_all cd s ops)) = stop_flag (devdata s)"
proof (induction ops arbitrary: s)
  case Nil
  then show ?case by (simp add: invoke_all_def)
next
  case (Cons op ops)
  from Cons.prems invoke_stop_flag [of cd s op]
  have eq: "stop_flag (devdata (snd (invoke cd s op))) = stop_flag (devdata s)"
    by auto
  with Cons.prems Cons.IH [of "snd (invoke cd s op)"] show ?case
    by (simp add: invoke_all_def)
qed

text \<open>Bits and ranges: the stop bit, its complement, and levels below \<open>2 ^ 31\<close>.\<close>

lemma stop_bit_conv: "(ucast CPU_STOP :: ulong) = 2 ^ 31"
  by (simp add: CPU_STOP_def)

lemma stop_mask_conv: "(ucast (NOT CPU_STOP) :: ulong) = mask 31"
  by (simp add: CPU_STOP_def mask_eq_exp_minus_1)

lemma flag_or_level: "((ucast CPU_STOP :: ulong) OR l) AND ucast CPU_STOP = ucast CPU_STOP"
  by (rule bit_word_eqI) (auto simp add: bit_simps)

lemma small_level_mask:
  fixes l :: ulong
  assumes "uint l < 2 ^ 31"
  shows "l AND mask 31 = l"
  using assms by (simp add: mask_eq_iff)

lemma strip_flag_level:
  fixes l :: ulong
  assumes "uint l < 2 ^ 31"
  shows "((ucast CPU_STOP :: ulong) OR l) AND ucast (NOT CPU_STOP) = l"
proof -
  have "(2 ^ 31 :: ulong) AND mask 31 = 0"
    by (simp add: mask_eq_exp_minus_1)
  then show ?thesis
    using small_level_mask [OF assms]
    by (simp add: stop_bit_conv stop_mask_conv bit.conj_disj_distrib2)
qed


lemma uint_scast_nonneg:
  fixes n :: c_int
  assumes "0 \<le> sint n"
  shows "uint (scast n :: ulong) = sint n"
proof -
  have "sint n < 2 ^ 31" using sint_lt [of n] by simp
  then have less: "sint n < 2 ^ LENGTH(64)" by simp
  have "uint (scast n :: ulong) = sint n mod 2 ^ LENGTH(64)"
    by (simp only: scast_eq uint_word_of_int)
  also have "\<dots> = sint n"
    using assms less by (rule mod_pos_pos_trivial)
  finally show ?thesis .
qed

lemma ucast_ucast_small:
  fixes l :: ulong
  assumes "uint l < 2 ^ 31"
  shows "(ucast (ucast l :: c_uint) :: ulong) = l"
proof -
  have small: "uint l < 2 ^ 32" using assms by simp
  have "uint (ucast l :: c_uint) = take_bit LENGTH(32) (uint l)"
    by (rule unsigned_ucast_eq)
  also have "\<dots> = uint l"
    using small by (simp add: take_bit_int_eq_self)
  finally have inner: "uint (ucast l :: c_uint) = uint l" .
  have "uint (ucast (ucast l :: c_uint) :: ulong) = take_bit LENGTH(64) (uint (ucast l :: c_uint))"
    by (rule unsigned_ucast_eq)
  also have "\<dots> = uint l"
    unfolding inner using uint_lt2p [of l] by (simp add: take_bit_int_eq_self)
  finally show ?thesis by (simp only: word_uint_eq_iff)
qed

lemma small_not_flagged:
  fixes l :: ulong
  assumes "uint l < 2 ^ 31"
  shows "l AND ucast CPU_STOP \<noteq> ucast CPU_STOP"
proof
  assume "l AND ucast CPU_STOP = ucast CPU_STOP"
  then have "uint (l AND 2 ^ 31) = uint (2 ^ 31 :: ulong)" by (simp add: stop_bit_conv)
  moreover have "uint (l AND 2 ^ 31) \<le> uint l"
    by (simp add: uint_and)
  ultimately show False using assms by simp
qed

lemma foldl_set_cur_state_stopped:
  "stop_flag (devdata s) \<noteq> 0 \<Longrightarrow> foldl cpucore_set_cur_state s reqs = s"
  by (induction reqs) (simp_all add: set_cur_state_stopped)

lemma uint_ucast_up:
  fixes x :: c_uint
  shows "uint (ucast x :: ulong) = uint x"
proof -
  have "uint x < 2 ^ LENGTH(32)" by (rule uint_lt2p)
  then have "uint x < 2 ^ 64" by simp
  have "uint (ucast x :: ulong) = take_bit LENGTH(64) (uint x)"
    by (rule unsigned_ucast_eq)
  also have "\<dots> = uint x"
    using \<open>uint x < 2 ^ 64\<close> by (simp add: take_bit_int_eq_self)
  finally show ?thesis .
qed

lemma uint_succ_small:
  fixes x :: ulong
  assumes "uint x < 2 ^ 31"
  shows "uint (x + 1) = uint x + 1"
proof -
  have "uint (x + 1) = (uint x + 1) mod 2 ^ LENGTH(64)"
    by (simp add: uint_word_ariths)
  also have "\<dots> = uint x + 1"
    using assms by (intro mod_pos_pos_trivial) simp_all
  finally show ?thesis .
qed

lemma uint_ucast_down_small:
  fixes l :: ulong
  assumes "uint l < 2 ^ 31"
  shows "uint (ucast l :: c_uint) = uint l"
proof -
  have "uint (ucast l :: c_uint) = take_bit LENGTH(32) (uint l)"
    by (rule unsigned_ucast_eq)
  also have "\<dots> = uint l"
    using assms by (simp add: take_bit_int_eq_self)
  finally show ?thesis .
qed

text \<open>One asserting hot trip on a zone without instance for the device.\<close>

lemma notify_state_step:
  assumes clear: "stop_flag (devdata s) = 0"
    and hot: "enter_hot tz"
    and unbound: "\<forall>i. get_thermal_instance tz cd i = None"
    and below: "uint (cpucore_state (devdata s)) < sint (max_cpu_core_num (devdata s))"
  defines "s' \<equiv> cpucore_notify_state cd s tz THERMAL_TRIP_HOT"
  shows "stop_flag (devdata s') = 0"
    and "max_cpu_core_num (devdata s') = max_cpu_core_num (devdata s)"
    and "uint (cpucore_state (devdata s')) =
      min (uint (cpucore_state (devdata s)) + 1) (sint (max_cpu_core_num (devdata s)) - 1)"
proof -
  let ?n = "max_cpu_core_num (devdata s)"
  let ?cur = "cpucore_get_cur_state s + 1"
  have n_less: "sint ?n < 2 ^ 31" using sint_lt [of ?n] by simp
  have "0 \<le> uint (cpucore_state (devdata s))" by simp
  with below have nonneg: "0 \<le> sint ?n" by linarith
  have old: "uint (cpucore_get_cur_state s) = uint (cpucore_state (devdata s))"
    by (simp add: cpucore_get_cur_state_def uint_ucast_up)
  with below n_less have "uint (cpucore_get_cur_state s) < 2 ^ 31" by simp
  then have cur: "uint ?cur = uint (cpucore_state (devdata s)) + 1"
    by (simp add: uint_succ_small old)
  with below n_less have cur_small: "uint ?cur < 2 ^ 31" by simp
  have s': "s' = cpucore_set_cur_state s ?cur"
    using hot by (simp add: s'_def cpucore_notify_state_def scan_upper_no_instance [OF unbound])
  have eq_iff: "scast ?n = ?cur \<longleftrightarrow> sint ?n = uint (cpucore_state (devdata s)) + 1"
    using uint_scast_nonneg [OF nonneg] cur by (simp only: word_uint_eq_iff)
  note plain = set_cur_state_plain [OF clear small_not_flagged [OF cur_small]]
  show "stop_flag (devdata s') = 0"
    by (simp add: s' plain clear)
  show "max_cpu_core_num (devdata s') = ?n"
    by (simp add: s' plain)
  show "uint (cpucore_state (devdata s')) = min (uint (cpucore_state (devdata s)) + 1) (sint ?n - 1)"
  proof (cases "scast ?n = ?cur")
    case True
    with eq_iff have "sint ?n = uint (cpucore_state (devdata s)) + 1" by simp
    with True show ?thesis by (simp add: s' plain)
  next
    case False
    with eq_iff below have "uint (cpucore_state (devdata s)) + 1 \<le> sint ?n - 1" by simp
    with False show ?thesis
      by (simp add: s' plain uint_ucast_down_small [OF cur_small] cur)
  qed
qed

lemma notify_hot_all_level:
  assumes "stop_flag (devdata s) = 0"
    and "\<forall>tz \<in> set tzs. enter_hot tz \<and> (\<forall>i. get_thermal_instance tz cd i = None)"
    and "uint (cpucore_state (devdata s)) < sint (max_cpu_core_num (devdata s))"
  shows "uint (cpucore_state (devdata (notify_hot_all cd s tzs))) =
    min (uint (cpucore_state (devdata s)) + int (length tzs))
      (sint (max_cpu_core_num (devdata s)) - 1)"
  using assms
proof (induction tzs arbitrary: s)
  case Nil
  then show ?case by (simp add: notify_hot_all_def)
next
  case (Cons tz tzs)
  let ?s' = "cpucore_notify_state cd s tz THERMAL_TRIP_HOT"
  from Cons.prems have hot: "enter_hot tz" and unbound: "\<forall>i. get_thermal_instance tz cd i = None"
    by simp_all
  note step = notify_state_step [OF Cons.prems(1) hot unbound Cons.prems(3)]
  have below': "uint (cpucore_state (devdata ?s')) < sint (max_cpu_core_num (devdata ?s'))"
    using step(2,3) by simp
  have rest: "\<forall>tz \<in> set tzs. enter_hot tz \<and> (\<forall>i. get_thermal_instance tz cd i = None)"
    using Cons.prems(2) by simp
  have "uint (cpucore_state (devdata (notify_hot_all cd ?s' tzs))) =
      min (uint (cpucore_state (devdata ?s')) + int (length tzs))
        (sint (max_cpu_core_num (devdata ?s')) - 1)"
    by (rule Cons.IH [OF step(1) rest below'])
  then show ?case
    using step(2,3) by (simp add: notify_hot_all_def)
qed

text \<open>
  What the saturation test does with a request that carries no stop bit: it drops
  the request that equals the number of cores, and commits every request that is
  greater in the unsigned order.
\<close>

lemma set_cur_state_at_max:
  assumes "stop_flag (devdata s) = 0"
    and "state AND ucast CPU_STOP \<noteq> ucast CPU_STOP"
    and "state = scast (max_cpu_core_num (devdata s))"
  shows "cpucore_set_cur_state s state = s"
  using set_cur_state_plain [OF assms(1,2)] assms(3) by simp

lemma set_cur_state_beyond_max:
  assumes "stop_flag (devdata s) = 0"
    and "state AND ucast CPU_STOP \<noteq> ucast CPU_STOP"
    and "scast (max_cpu_core_num (devdata s)) < state"
  shows "cpucore_state (devdata (cpucore_set_cur_state s state)) = ucast state \<and>
    max_cpu_num_calls (cpucore_set_cur_state s state) =
      max_cpu_num_calls s @ [ucast (scast (max_cpu_core_num (devdata s)) - state)]"
  using set_cur_state_plain [OF assms(1,2)] assms(3) by auto

subsection \<open>Saturation\<close>

text \<open>
  C1. The claim is that a request at or above the number of cores changes
  nothing and reaches no call of \<^verbatim>\<open>cpufreq_set_max_cpu_num\<close>. The code drops
  the request that equals the number of cores (\<open>set_cur_state_at_max\<close>), but not
  a greater one (\<open>set_cur_state_beyond_max\<close>): with 4 cores and the request 5 the
  unsigned difference \<open>4 - 5\<close> wraps around to \<open>2 ^ 64 - 1\<close>, which is greater
  than 0, so the state becomes 5 and \<^verbatim>\<open>cpufreq_set_max_cpu_num\<close> is called with
  \<open>- 1\<close>.
\<close>

theorem set_cur_state_above_max_commits:
  "cpucore_get_cur_state (cpucore_set_cur_state (device 4 0 0) 5) = 5 \<and>
   max_cpu_num_calls (cpucore_set_cur_state (device 4 0 0) 5) = [- 1]"
  by (simp add: cpucore_set_cur_state_def cpucore_get_cur_state_def device_def CPU_STOP_def
      Let_def word_gt_0 ucast_minus_1)

text \<open>
  C4. Start from a record as registration leaves it, with cooling state 0, the
  stop flag clear and a positive number \<open>N\<close> of cores, and notify \<open>k\<close> asserting hot
  trips on zones that hold no trip instance for the device, so that no upper bound
  is in effect. Then \<^verbatim>\<open>get_cur_state\<close> reports \<open>min k (N - 1)\<close>, which is below
  \<open>N\<close>.
\<close>

theorem notify_hot_saturates:
  assumes "cpucore_state (devdata s) = 0"
    and "stop_flag (devdata s) = 0"
    and "0 < sint (max_cpu_core_num (devdata s))"
    and "\<forall>tz \<in> set tzs. enter_hot tz \<and> (\<forall>i. get_thermal_instance tz cd i = None)"
  shows "uint (cpucore_get_cur_state (notify_hot_all cd s tzs)) =
      min (int (length tzs)) (sint (max_cpu_core_num (devdata s)) - 1) \<and>
    uint (cpucore_get_cur_state (notify_hot_all cd s tzs)) <
      sint (max_cpu_core_num (devdata s))"
proof -
  have below: "uint (cpucore_state (devdata s)) < sint (max_cpu_core_num (devdata s))"
    using assms(1,3) by simp
  have "uint (cpucore_get_cur_state (notify_hot_all cd s tzs)) =
      uint (cpucore_state (devdata (notify_hot_all cd s tzs)))"
    by (simp add: cpucore_get_cur_state_def uint_ucast_up)
  also have "\<dots> = min (int (length tzs)) (sint (max_cpu_core_num (devdata s)) - 1)"
    using notify_hot_all_level [OF assms(2,4) below] assms(1) by simp
  finally show ?thesis by simp
qed

theorem notify_hot_saturates_witness:
  "cpucore_state (devdata (device 4 0 0)) = 0 \<and>
   stop_flag (devdata (device 4 0 0)) = 0 \<and>
   0 < sint (max_cpu_core_num (devdata (device 4 0 0))) \<and>
   uint (cpucore_get_cur_state (notify_hot_all 0 (device 4 0 0)
     [zone True [], zone True [], zone True [], zone True [], zone True []])) = 3"
proof -
  have h1: "cpucore_state (devdata (device 4 0 0)) = 0"
    and h2: "stop_flag (devdata (device 4 0 0)) = 0"
    and h3: "0 < sint (max_cpu_core_num (devdata (device 4 0 0)))"
    by (simp_all add: device_def)
  have h4: "\<forall>tz \<in> set [zone True [], zone True [], zone True [], zone True [], zone True []].
      enter_hot tz \<and> (\<forall>i. get_thermal_instance tz 0 i = None)"
    by (simp add: zone_def get_thermal_instance_def)
  from notify_hot_saturates [OF h1 h2 h3 h4] h1 h2 h3 show ?thesis
    by (simp add: device_def)
qed

text \<open>
  C10. On a record whose stop flag is clear, a request that carries the stop bit
  and whose remaining level equals the number of cores sets the stop flag, leaves
  the cooling state as it was and reaches no call of
  \<^verbatim>\<open>cpufreq_set_max_cpu_num\<close>.
\<close>

theorem stop_request_at_max_latches_only:
  assumes "stop_flag (devdata s) = 0"
    and "state AND ucast CPU_STOP = ucast CPU_STOP"
    and "state AND ucast (NOT CPU_STOP) = scast (max_cpu_core_num (devdata s))"
  shows "stop_flag (devdata (cpucore_set_cur_state s state)) = 1 \<and>
    cpucore_get_cur_state (cpucore_set_cur_state s state) = cpucore_get_cur_state s \<and>
    max_cpu_num_calls (cpucore_set_cur_state s state) = max_cpu_num_calls s"
  using assms set_cur_state_flagged [OF assms(1,2)]
  by (simp add: cpucore_get_cur_state_def)

theorem stop_request_at_max_latches_only_witness:
  "stop_flag (devdata (device 4 1 0)) = 0 \<and>
   (0x80000004 :: ulong) AND ucast CPU_STOP = ucast CPU_STOP \<and>
   (0x80000004 :: ulong) AND ucast (NOT CPU_STOP) =
     scast (max_cpu_core_num (devdata (device 4 1 0))) \<and>
   stop_flag (devdata (cpucore_set_cur_state (device 4 1 0) 0x80000004)) = 1 \<and>
   cpucore_get_cur_state (cpucore_set_cur_state (device 4 1 0) 0x80000004) = 1 \<and>
   max_cpu_num_calls (cpucore_set_cur_state (device 4 1 0) 0x80000004) = []"
proof -
  have h1: "stop_flag (devdata (device 4 1 0)) = 0"
    by (simp add: device_def)
  have h2: "(0x80000004 :: ulong) AND ucast CPU_STOP = ucast CPU_STOP"
    by (simp add: CPU_STOP_def)
  have h3: "(0x80000004 :: ulong) AND ucast (NOT CPU_STOP) =
      scast (max_cpu_core_num (devdata (device 4 1 0)))"
    by (simp add: CPU_STOP_def device_def)
  from stop_request_at_max_latches_only [OF h1 h2 h3] h1 h2 h3 show ?thesis
    by (simp add: device_def cpucore_get_cur_state_def)
qed

subsection \<open>The stop latch and the notification\<close>

text \<open>
  C8. The stop flag only ever goes from clear to set. A call of any callback
  either leaves the flag as it was or finds it clear and sets it to 1; and once
  it is set, it is still set after any sequence of calls.
\<close>

theorem stop_flag_monotonic:
  "(stop_flag (devdata (snd (invoke cd s op))) = stop_flag (devdata s) \<or>
    stop_flag (devdata s) = 0 \<and> stop_flag (devdata (snd (invoke cd s op))) = 1) \<and>
   (stop_flag (devdata s) \<noteq> 0 \<longrightarrow> stop_flag (devdata (invoke_all cd s ops)) \<noteq> 0)"
  using invoke_stop_flag [of cd s op] invoke_all_stop_flag [of s cd ops] by auto

theorem stop_flag_monotonic_witness:
  "stop_flag (devdata (device 8 3 1)) \<noteq> 0 \<and>
   stop_flag (devdata (invoke_all 0 (device 8 3 1)
     [Set_cur_state 0, Notify_state (zone False []) THERMAL_TRIP_HOT, Get_cur_state])) \<noteq> 0"
proof -
  have h: "stop_flag (devdata (device 8 3 1)) \<noteq> 0"
    by (simp add: device_def)
  from stop_flag_monotonic [of 0 "device 8 3 1" Get_cur_state
      "[Set_cur_state 0, Notify_state (zone False []) THERMAL_TRIP_HOT, Get_cur_state]"] h
  show ?thesis by simp
qed

text \<open>
  C5. On a record whose stop flag is clear, a request that carries the stop bit
  together with a level below the number of cores (such as
  \<^verbatim>\<open>CPU_STOP | 2\<close> with more than 2 cores) sets the stop flag and commits the
  level without the bit; after that the cooling state read by
  \<^verbatim>\<open>get_cur_state\<close> stays at that level through every sequence of further
  \<^verbatim>\<open>set_cur_state\<close> calls, with or without the stop bit.
\<close>

theorem stop_request_commits_then_freezes:
  assumes "stop_flag (devdata s) = 0"
    and "uint level < sint (max_cpu_core_num (devdata s))"
  shows "stop_flag (devdata (cpucore_set_cur_state s (ucast CPU_STOP OR level))) \<noteq> 0 \<and>
    cpucore_get_cur_state (cpucore_set_cur_state s (ucast CPU_STOP OR level)) = level \<and>
    cpucore_get_cur_state
      (foldl cpucore_set_cur_state (cpucore_set_cur_state s (ucast CPU_STOP OR level)) reqs) =
      level"
proof -
  let ?n = "max_cpu_core_num (devdata s)"
  let ?s' = "cpucore_set_cur_state s (ucast CPU_STOP OR level)"
  have "sint ?n < 2 ^ 31" using sint_lt [of ?n] by simp
  with assms(2) have small: "uint level < 2 ^ 31" by simp
  have "0 \<le> uint level" by simp
  with assms(2) have nonneg: "0 \<le> sint ?n" by linarith
  have "uint (scast ?n :: ulong) \<noteq> uint level"
    using assms(2) by (simp add: uint_scast_nonneg [OF nonneg])
  then have differs: "scast ?n \<noteq> level" by auto
  have s': "?s' = s\<lparr>devdata := (devdata s)\<lparr>stop_flag := 1,
        cpucore_state := ucast level\<rparr>,
      max_cpu_num_calls := max_cpu_num_calls s @ [ucast (scast ?n - level)]\<rparr>"
    using set_cur_state_flagged [OF assms(1) flag_or_level [of level]] differs
    by (simp add: strip_flag_level [OF small])
  have latched: "stop_flag (devdata ?s') \<noteq> 0"
    by (simp add: s')
  have level: "cpucore_get_cur_state ?s' = level"
    by (simp add: s' cpucore_get_cur_state_def ucast_ucast_small [OF small])
  from latched level show ?thesis
    by (simp add: foldl_set_cur_state_stopped)
qed

theorem stop_request_commits_then_freezes_witness:
  "stop_flag (devdata (device 8 0 0)) = 0 \<and>
   uint (2 :: ulong) < sint (max_cpu_core_num (devdata (device 8 0 0))) \<and>
   cpucore_get_cur_state (cpucore_set_cur_state (device 8 0 0) (ucast CPU_STOP OR 2)) = 2 \<and>
   cpucore_get_cur_state
     (foldl cpucore_set_cur_state (cpucore_set_cur_state (device 8 0 0) (ucast CPU_STOP OR 2))
        [0, ucast CPU_STOP OR 5, 7]) = 2"
proof -
  have h1: "stop_flag (devdata (device 8 0 0)) = 0"
    by (simp add: device_def)
  have h2: "uint (2 :: ulong) < sint (max_cpu_core_num (devdata (device 8 0 0)))"
    by (simp add: device_def)
  from stop_request_commits_then_freezes [OF h1 h2, of "[0, ucast CPU_STOP OR 5, 7]"] h1 h2
  show ?thesis by simp
qed

text \<open>
  C2 (as amended). Once the stop flag of a record is set, \<^verbatim>\<open>set_cur_state\<close> is a
  no-op on it, and so is the notification for every trip type and either value of
  \<open>enter_hot\<close>: it commits through \<^verbatim>\<open>set_cur_state\<close> and therefore cannot
  change the cooling state any more.
\<close>

theorem stopped_freezes_set_and_notify:
  assumes "stop_flag (devdata s) \<noteq> 0"
  shows "cpucore_set_cur_state s state = s \<and> cpucore_notify_state cd s tz type = s"
  using assms by (simp add: set_cur_state_stopped notify_state_stopped)

theorem stopped_freezes_set_and_notify_witness:
  "stop_flag (devdata (device 8 3 1)) \<noteq> 0 \<and>
   cpucore_set_cur_state (device 8 3 1) 5 = device 8 3 1 \<and>
   cpucore_notify_state 0 (device 8 3 1) (zone True []) THERMAL_TRIP_HOT = device 8 3 1"
proof -
  have h: "stop_flag (devdata (device 8 3 1)) \<noteq> 0"
    by (simp add: device_def)
  from stopped_freezes_set_and_notify [OF h, of 5 0 "zone True []" THERMAL_TRIP_HOT] h
  show ?thesis by simp
qed

text \<open>
  C2 as stated fails: the notification is not independent of the latch. On the
  same record with 8 cores at state 3, an asserting hot trip moves the state to 4
  when the latch is clear and leaves it at 3 when the latch is set.
\<close>

theorem notify_depends_on_latch_counterexample:
  "cpucore_get_cur_state
     (cpucore_notify_state 0 (device 8 3 0) (zone True []) THERMAL_TRIP_HOT) = 4 \<and>
   cpucore_get_cur_state
     (cpucore_notify_state 0 (device 8 3 1) (zone True []) THERMAL_TRIP_HOT) = 3"
  by (simp add: cpucore_notify_state_def cpucore_set_cur_state_def cpucore_get_cur_state_def
      device_def zone_def scan_upper.simps get_thermal_instance_def CPU_STOP_def Let_def)

text \<open>
  C3 (as amended). A notification of a clearing hot trip (\<open>enter_hot\<close> false)
  sets the cooling state to 0 on every record whose stop flag is clear and whose
  number of cores is not 0 (registration stores the number of possible CPUs there);
  on every other record it leaves the cooling state as it was.
\<close>

theorem notify_clearing_resets_unless_stopped:
  assumes "\<not> enter_hot tz"
  shows "cpucore_get_cur_state (cpucore_notify_state cd s tz THERMAL_TRIP_HOT) =
    (if stop_flag (devdata s) = 0 \<and> max_cpu_core_num (devdata s) \<noteq> 0 then 0
     else cpucore_get_cur_state s)"
proof (cases "stop_flag (devdata s) = 0")
  case True
  from set_cur_state_plain [OF True zero_not_flagged] assms show ?thesis
    by (simp add: cpucore_notify_state_def scast_max_eq_0 cpucore_get_cur_state_def True)
next
  case False
  then show ?thesis by (simp add: notify_state_stopped)
qed

theorem notify_clearing_resets_unless_stopped_witness:
  "\<not> enter_hot (zone False []) \<and>
   cpucore_get_cur_state
     (cpucore_notify_state 0 (device 8 5 0) (zone False []) THERMAL_TRIP_HOT) = 0"
proof -
  have h: "\<not> enter_hot (zone False [])"
    by (simp add: zone_def)
  from notify_clearing_resets_unless_stopped [OF h, of 0 "device 8 5 0"] h
  show ?thesis by (simp add: device_def)
qed

text \<open>
  C3 as stated fails on a record whose stop flag is set: with 8 cores at state 5,
  the clearing notification leaves the state at 5.
\<close>

theorem notify_clearing_stopped_counterexample:
  "cpucore_get_cur_state
     (cpucore_notify_state 0 (device 8 5 1) (zone False []) THERMAL_TRIP_HOT) = 5 \<and>
   cpucore_get_cur_state
     (cpucore_notify_state 0 (device 8 5 1) (zone False []) THERMAL_TRIP_HOT) \<noteq> 0"
  by (simp add: cpucore_notify_state_def cpucore_set_cur_state_def cpucore_get_cur_state_def
      device_def zone_def)

subsection \<open>The upper bound of the trip instances\<close>

text \<open>
  C6. The claim is that an asserting hot trip increments the state by one and
  clamps it to the largest upper bound declared by the bound trip instances. The
  increment is there (\<open>notify_state_asserting\<close>), the clamp is not: the search
  compares each declared bound with \<open>- 1\<close> as an \<^verbatim>\<open>unsigned long\<close> and so
  never takes it (\<open>scan_upper_unbounded\<close>). With 8 cores at state 2 and one
  instance that declares the upper bound 2, the search returns \<open>- 1\<close> and the
  state becomes 3.
\<close>

theorem notify_ignores_declared_upper:
  "scan_upper (zone True [\<lparr>cdev = 0, trip = 1, upper = 2\<rparr>]) 0 0 (- 1) = - 1 \<and>
   cpucore_get_cur_state
     (cpucore_notify_state 0 (device 8 2 0) (zone True [\<lparr>cdev = 0, trip = 1, upper = 2\<rparr>])
        THERMAL_TRIP_HOT) = 3"
  by (simp add: cpucore_notify_state_def cpucore_set_cur_state_def cpucore_get_cur_state_def
      device_def zone_def scan_upper.simps get_thermal_instance_def CPU_STOP_def Let_def
      word_gt_0)

subsection \<open>The id allocator\<close>

text \<open>The search finds the smallest free id of the index space, if there is one.\<close>

lemma find_free_Some:
  "find (\<lambda>n. n \<notin> S) [0..m] = Some n \<longleftrightarrow>
     0 \<le> n \<and> n \<le> m \<and> n \<notin> S \<and> (\<forall>k. 0 \<le> k \<and> k < n \<longrightarrow> k \<in> S)"
proof
  assume "find (\<lambda>n. n \<notin> S) [0..m] = Some n"
  then obtain i where i: "i < length [0..m]" "[0..m] ! i = n" "n \<notin> S"
    and before: "\<And>j. j < i \<Longrightarrow> [0..m] ! j \<in> S"
    unfolding find_Some_iff by blast
  from i(1) have im: "0 + int i \<le> m" by simp
  then have "[0..m] ! i = 0 + int i" by (rule nth_upto)
  with i(2) have n: "n = int i" by simp
  have "k \<in> S" if "0 \<le> k" "k < n" for k
  proof -
    from that n have "nat k < i" by linarith
    then have "[0..m] ! nat k \<in> S" by (rule before)
    moreover from that n im have "0 + int (nat k) \<le> m" by linarith
    then have "[0..m] ! nat k = 0 + int (nat k)" by (rule nth_upto)
    ultimately show ?thesis using that by simp
  qed
  with n im i(3) show "0 \<le> n \<and> n \<le> m \<and> n \<notin> S \<and> (\<forall>k. 0 \<le> k \<and> k < n \<longrightarrow> k \<in> S)"
    by simp
next
  assume r: "0 \<le> n \<and> n \<le> m \<and> n \<notin> S \<and> (\<forall>k. 0 \<le> k \<and> k < n \<longrightarrow> k \<in> S)"
  then have n0: "0 \<le> n" and nm: "n \<le> m" and free: "n \<notin> S"
    and below: "\<And>k. 0 \<le> k \<Longrightarrow> k < n \<Longrightarrow> k \<in> S"
    by blast+
  from n0 nm have len: "nat n < length [0..m]" by simp
  from n0 nm have "0 + int (nat n) \<le> m" by simp
  then have "[0..m] ! nat n = 0 + int (nat n)" by (rule nth_upto)
  with n0 have at: "[0..m] ! nat n = n" by simp
  have "[0..m] ! j \<in> S" if "j < nat n" for j
  proof -
    from that nm have "0 + int j \<le> m" by linarith
    then have "[0..m] ! j = 0 + int j" by (rule nth_upto)
    moreover from that have "int j < n" by linarith
    ultimately show ?thesis using below [of "int j"] by simp
  qed
  then have "\<forall>j<nat n. \<not> [0..m] ! j \<notin> S" by simp
  with len at free show "find (\<lambda>n. n \<notin> S) [0..m] = Some n"
    unfolding find_Some_iff by (intro exI [of _ "nat n"]) simp
qed

lemma get_idr_Inr:
  "get_idr idr = (Inr n, idr') \<longleftrightarrow>
     0 \<le> n \<and> n < space idr \<and> n \<notin> set (outstanding idr) \<and>
     (\<forall>k. 0 \<le> k \<and> k < n \<longrightarrow> k \<in> set (outstanding idr)) \<and>
     idr' = idr\<lparr>outstanding := n # outstanding idr\<rparr>"
proof (cases "find (\<lambda>n. n \<notin> set (outstanding idr)) [0..space idr - 1]")
  case None
  then have val: "get_idr idr = (Inl ENOSPC, idr)"
    by (simp add: get_idr_def idr_alloc_def)
  from None have "find (\<lambda>n. n \<notin> set (outstanding idr)) [0..space idr - 1] \<noteq> Some n" by simp
  then have "\<not> (0 \<le> n \<and> n \<le> space idr - 1 \<and> n \<notin> set (outstanding idr) \<and>
     (\<forall>k. 0 \<le> k \<and> k < n \<longrightarrow> k \<in> set (outstanding idr)))"
    unfolding find_free_Some .
  then show ?thesis unfolding val by auto
next
  case (Some a)
  then have val: "get_idr idr = (Inr a, idr\<lparr>outstanding := a # outstanding idr\<rparr>)"
    by (simp add: get_idr_def idr_alloc_def)
  from Some have a: "0 \<le> a \<and> a \<le> space idr - 1 \<and> a \<notin> set (outstanding idr) \<and>
     (\<forall>k. 0 \<le> k \<and> k < a \<longrightarrow> k \<in> set (outstanding idr))"
    unfolding find_free_Some .
  show ?thesis
  proof
    assume "get_idr idr = (Inr n, idr')"
    then have "(Inr a :: errno + int, idr\<lparr>outstanding := a # outstanding idr\<rparr>) = (Inr n, idr')"
      unfolding val .
    then have "n = a" "idr' = idr\<lparr>outstanding := a # outstanding idr\<rparr>"
      by blast+
    with a show "0 \<le> n \<and> n < space idr \<and> n \<notin> set (outstanding idr) \<and>
     (\<forall>k. 0 \<le> k \<and> k < n \<longrightarrow> k \<in> set (outstanding idr)) \<and>
     idr' = idr\<lparr>outstanding := n # outstanding idr\<rparr>" by simp
  next
    assume r: "0 \<le> n \<and> n < space idr \<and> n \<notin> set (outstanding idr) \<and>
     (\<forall>k. 0 \<le> k \<and> k < n \<longrightarrow> k \<in> set (outstanding idr)) \<and>
     idr' = idr\<lparr>outstanding := n # outstanding idr\<rparr>"
    have "\<not> n < a" using a r by blast
    moreover have "\<not> a < n" using a r by blast
    ultimately have "n = a" by linarith
    with r show "get_idr idr = (Inr n, idr')"
      unfolding val by simp
  qed
qed

lemma get_idr_Inl:
  "get_idr idr = (Inl e, idr') \<longleftrightarrow>
     e = ENOSPC \<and> idr' = idr \<and> {0..<space idr} \<subseteq> set (outstanding idr)"
proof (cases "find (\<lambda>n. n \<notin> set (outstanding idr)) [0..space idr - 1]")
  case None
  then have val: "get_idr idr = (Inl ENOSPC, idr)"
    by (simp add: get_idr_def idr_alloc_def)
  from None have "\<And>x. x \<in> set [0..space idr - 1] \<Longrightarrow> x \<in> set (outstanding idr)"
    unfolding find_None_iff by blast
  then have "{0..<space idr} \<subseteq> set (outstanding idr)"
    by (simp add: subset_iff)
  then show ?thesis unfolding val by auto
next
  case (Some a)
  then have val: "get_idr idr = (Inr a, idr\<lparr>outstanding := a # outstanding idr\<rparr>)"
    by (simp add: get_idr_def idr_alloc_def)
  from Some have "a \<in> {0..<space idr}" "a \<notin> set (outstanding idr)"
    by (simp_all add: find_free_Some)
  then have "\<not> {0..<space idr} \<subseteq> set (outstanding idr)" by blast
  then show ?thesis unfolding val by simp
qed

lemma release_idr_fresh:
  "n \<notin> set (outstanding idr) \<Longrightarrow> release_idr (idr\<lparr>outstanding := n # outstanding idr\<rparr>) n = idr"
  by (simp add: release_idr_def idr_remove_def)

lemma release_idr_outstanding:
  "set (outstanding (release_idr idr n)) = set (outstanding idr) - {n}"
  by (simp add: release_idr_def idr_remove_def)

text \<open>
  C9. Whenever some id of the index space is free, \<^verbatim>\<open>get_idr\<close> succeeds and
  returns the smallest non-negative integer that is not outstanding, which then is
  outstanding; \<^verbatim>\<open>release_idr\<close> removes an id from the outstanding ones; and
  after allocating and releasing, with nothing in between, the next allocation
  returns the same id again.
\<close>

theorem get_idr_smallest_release_reuse:
  assumes "0 \<le> k" and "k < space idr" and "k \<notin> set (outstanding idr)"
  shows "\<exists>n idr'. get_idr idr = (Inr n, idr') \<and>
    0 \<le> n \<and> n \<notin> set (outstanding idr) \<and>
      (\<forall>m. 0 \<le> m \<and> m < n \<longrightarrow> m \<in> set (outstanding idr)) \<and>
    set (outstanding idr') = insert n (set (outstanding idr)) \<and>
    set (outstanding (release_idr idr' n)) = set (outstanding idr') - {n} \<and>
    get_idr (release_idr idr' n) = (Inr n, idr')"
proof -
  from assms have free: "\<not> {0..<space idr} \<subseteq> set (outstanding idr)"
    by auto
  obtain r idr' where got: "get_idr idr = (r, idr')"
    by (cases "get_idr idr")
  have "\<exists>n. r = Inr n"
  proof (cases r)
    case (Inl e)
    with got free show ?thesis by (simp add: get_idr_Inl)
  next
    case (Inr n)
    then show ?thesis by simp
  qed
  then obtain n where alloc: "get_idr idr = (Inr n, idr')"
    using got by blast
  then have n: "0 \<le> n" "n < space idr" "n \<notin> set (outstanding idr)"
    and smallest: "\<forall>m. 0 \<le> m \<and> m < n \<longrightarrow> m \<in> set (outstanding idr)"
    and idr': "idr' = idr\<lparr>outstanding := n # outstanding idr\<rparr>"
    unfolding get_idr_Inr by blast+
  have restored: "release_idr idr' n = idr"
    unfolding idr' using n(3) by (rule release_idr_fresh)
  have again: "get_idr (release_idr idr' n) = (Inr n, idr')"
    unfolding restored by (rule alloc)
  have "set (outstanding idr') = insert n (set (outstanding idr))"
    unfolding idr' by simp
  with n smallest again alloc show ?thesis
    by (simp add: release_idr_outstanding)
qed

theorem get_idr_smallest_release_reuse_witness:
  "(0 :: int) \<le> 1 \<and> 1 < space \<lparr>space = 8, outstanding = [2, 0]\<rparr> \<and>
   1 \<notin> set (outstanding \<lparr>space = 8, outstanding = [2, 0]\<rparr>) \<and>
   (\<exists>n idr'. get_idr \<lparr>space = 8, outstanding = [2, 0]\<rparr> = (Inr n, idr') \<and>
      get_idr (release_idr idr' n) = (Inr n, idr'))"
proof -
  have h1: "(0 :: int) \<le> 1" by simp
  have h2: "1 < space \<lparr>space = 8, outstanding = [2, 0]\<rparr>" by simp
  have h3: "1 \<notin> set (outstanding \<lparr>space = 8, outstanding = [2, 0]\<rparr>)" by simp
  from get_idr_smallest_release_reuse [OF h1 h2 h3] h1 h2 h3 show ?thesis by blast
qed

text \<open>With 0 and 2 outstanding the allocator hands out 1, and the release undoes it.\<close>

lemma get_idr_example:
  "get_idr \<lparr>space = 8, outstanding = [2, 0]\<rparr> = (Inr 1, \<lparr>space = 8, outstanding = [1, 2, 0]\<rparr>) \<and>
   release_idr \<lparr>space = 8, outstanding = [1, 2, 0]\<rparr> 1 = \<lparr>space = 8, outstanding = [2, 0]\<rparr>"
  by (simp add: get_idr_def idr_alloc_def upto.simps release_idr_def idr_remove_def)

subsection \<open>Registration\<close>

text \<open>
  A registration that passes all three stages leaves a record with cooling state
  0, the stop flag clear and the number of possible CPUs as its number of cores.
\<close>

lemma register_success:
  assumes "kzalloc_ret env = Some p"
    and "get_idr (cpucore_idr k) = (Inr n, idr')"
    and "tcd_register_ret env = Some c"
  shows "cpucore_cooling_register env k =
    (Inr c, k\<lparr>cpucore_idr := idr',
       heap := (heap k)(p \<mapsto> \<lparr>id_dev = n, cool_dev = Some c, cpucore_state = 0,
         max_cpu_core_num = num_possible_cpus env, stop_flag = 0\<rparr>)\<rparr>)"
  using assms by (simp add: cpucore_cooling_register_def zeroed_def Let_def)

text \<open>
  The two failures that the code recognises. When \<^verbatim>\<open>kzalloc\<close> has returned a
  fresh record and then \<^verbatim>\<open>get_idr\<close> fails, or the framework returns
  \<^verbatim>\<open>NULL\<close> for the cooling device, the result is the error \<^verbatim>\<open>-EINVAL\<close>
  and the kernel state is the one before the call: the record is freed and, in the
  second case, the id is released.
\<close>

lemma register_rollback_where_tested:
  assumes "kzalloc_ret env = Some p"
    and "heap k p = None"
    and "(\<exists>e. fst (get_idr (cpucore_idr k)) = Inl e) \<or> tcd_register_ret env = None"
  shows "cpucore_cooling_register env k = (Inl EINVAL, k)"
proof -
  obtain r idr' where got: "get_idr (cpucore_idr k) = (r, idr')"
    by (cases "get_idr (cpucore_idr k)")
  show ?thesis
  proof (cases r)
    case (Inl e)
    with got have "idr' = cpucore_idr k" by (simp add: get_idr_Inl)
    with got Inl assms(1) show ?thesis
      by (simp add: cpucore_cooling_register_def kfree_def assms(2) fun_upd_idem)
  next
    case (Inr n)
    with got assms(3) have unbound: "tcd_register_ret env = None" by simp
    from got Inr have "get_idr (cpucore_idr k) = (Inr n, idr')" by simp
    then have "n \<notin> set (outstanding (cpucore_idr k))"
      and "idr' = (cpucore_idr k)\<lparr>outstanding := n # outstanding (cpucore_idr k)\<rparr>"
      unfolding get_idr_Inr by blast+
    then have "release_idr idr' n = cpucore_idr k"
      by (simp add: release_idr_fresh)
    with got Inr assms(1) unbound show ?thesis
      by (simp add: cpucore_cooling_register_def kfree_def zeroed_def Let_def
          assms(2) fun_upd_idem)
  qed
qed

lemma register_rollback_where_tested_example:
  "cpucore_cooling_register
     \<lparr>kzalloc_ret = Some 0, num_possible_cpus = 4, tcd_register_ret = None\<rparr>
     \<lparr>cpucore_idr = \<lparr>space = 8, outstanding = [0]\<rparr>, heap = Map.empty\<rparr> =
     (Inl EINVAL, \<lparr>cpucore_idr = \<lparr>space = 8, outstanding = [0]\<rparr>, heap = Map.empty\<rparr>) \<and>
   cpucore_cooling_register
     \<lparr>kzalloc_ret = Some 0, num_possible_cpus = 4, tcd_register_ret = Some 1\<rparr>
     \<lparr>cpucore_idr = \<lparr>space = 1, outstanding = [0]\<rparr>, heap = Map.empty\<rparr> =
     (Inl EINVAL, \<lparr>cpucore_idr = \<lparr>space = 1, outstanding = [0]\<rparr>, heap = Map.empty\<rparr>)"
proof -
  let ?unbound = "\<lparr>kzalloc_ret = Some 0, num_possible_cpus = 4, tcd_register_ret = None\<rparr>"
  let ?bound = "\<lparr>kzalloc_ret = Some 0, num_possible_cpus = 4, tcd_register_ret = Some 1\<rparr>"
  let ?roomy = "\<lparr>cpucore_idr = \<lparr>space = 8, outstanding = [0]\<rparr>, heap = Map.empty\<rparr>"
  let ?full = "\<lparr>cpucore_idr = \<lparr>space = 1, outstanding = [0]\<rparr>, heap = Map.empty\<rparr>"
  have a1: "kzalloc_ret ?unbound = Some 0" and a2: "heap ?roomy 0 = None"
    and a3: "(\<exists>e. fst (get_idr (cpucore_idr ?roomy)) = Inl e) \<or> tcd_register_ret ?unbound = None"
    by simp_all
  have b1: "kzalloc_ret ?bound = Some 0" and b2: "heap ?full 0 = None"
    by simp_all
  have "fst (get_idr (cpucore_idr ?full)) = Inl ENOSPC"
    by (simp add: get_idr_def idr_alloc_def upto.simps)
  then have b3: "(\<exists>e. fst (get_idr (cpucore_idr ?full)) = Inl e) \<or> tcd_register_ret ?bound = None"
    by blast
  from register_rollback_where_tested [OF a1 a2 a3] register_rollback_where_tested [OF b1 b2 b3]
  show ?thesis by simp
qed

text \<open>
  An error pointer is not \<^verbatim>\<open>NULL\<close>, so the test \<^verbatim>\<open>!cool_dev\<close> lets it
  pass: whatever error the framework reports, registration goes on as after a
  success, stores the error pointer in the record and returns it, and the id and
  the record stay allocated.
\<close>

lemma register_error_pointer_kept:
  assumes "kzalloc_ret env = Some p"
    and "get_idr (cpucore_idr k) = (Inr n, idr')"
    and "tcd_register_ret env = Some (ERR_PTR e)"
  shows "cpucore_cooling_register env k =
    (Inr (ERR_PTR e), k\<lparr>cpucore_idr := idr',
       heap := (heap k)(p \<mapsto> \<lparr>id_dev = n, cool_dev = Some (ERR_PTR e), cpucore_state = 0,
         max_cpu_core_num = num_possible_cpus env, stop_flag = 0\<rparr>)\<rparr>)"
  using assms by (rule register_success)

lemma IS_ERR_ERR_PTR: "IS_ERR (Some (ERR_PTR e))"
  by (cases e) (simp_all add: IS_ERR_def ERR_PTR_def)

text \<open>
  C7. The claim is that a registration that fails at the identifier allocation
  or at the framework binding returns the error and rolls back: the record is
  freed and, after a binding failure, the id is released. This holds for a failure
  of \<^verbatim>\<open>get_idr\<close> (\<open>register_rollback_where_tested\<close>). It does not hold for a
  binding failure: with id 0 outstanding, a fresh record at address 0 and the
  framework answering \<^verbatim>\<open>ERR_PTR(-EINVAL)\<close>, registration returns that error
  pointer, while id 1 stays outstanding and the record stays allocated, holding the
  error pointer as its cooling device.
\<close>

theorem register_binding_failure_leaks:
  "IS_ERR (tcd_register_ret
     \<lparr>kzalloc_ret = Some 0, num_possible_cpus = 4, tcd_register_ret = Some (ERR_PTR EINVAL)\<rparr>) \<and>
   cpucore_cooling_register
     \<lparr>kzalloc_ret = Some 0, num_possible_cpus = 4, tcd_register_ret = Some (ERR_PTR EINVAL)\<rparr>
     \<lparr>cpucore_idr = \<lparr>space = 8, outstanding = [0]\<rparr>, heap = Map.empty\<rparr> =
     (Inr (ERR_PTR EINVAL),
      \<lparr>cpucore_idr = \<lparr>space = 8, outstanding = [1, 0]\<rparr>,
       heap = [0 \<mapsto> \<lparr>id_dev = 1, cool_dev = Some (ERR_PTR EINVAL), cpucore_state = 0,
         max_cpu_core_num = 4, stop_flag = 0\<rparr>]\<rparr>)"
  by (simp add: cpucore_cooling_register_def get_idr_def idr_alloc_def upto.simps zeroed_def
      Let_def IS_ERR_def ERR_PTR_def)

end
